theory Spec2Isabelle
  imports Main
begin

section \<open>Python values, exceptions and the event queue\<close>

text \<open>
  The module \<^verbatim>\<open>background_process.py\<close> passes Python values around untyped: the queue
  carries tuples, the subscriber state is a dict, and truth values are taken with
  \<^verbatim>\<open>bool(...)\<close>. \<open>PyObj b\<close> stands for an object of a class defined outside this module
  (an \<^verbatim>\<open>ncs\<close> value): all the module ever does with one is take its truth value \<open>b\<close>.
\<close>

datatype pyval = PyNone | PyBool bool | PyStr string | PyObj bool

fun truthy :: "pyval \<Rightarrow> bool" where
  "truthy PyNone = False"
| "truthy (PyBool b) = b"
| "truthy (PyStr s) = (s \<noteq> [])"
| "truthy (PyObj b) = b"

datatype error = NameError | AttributeError | ValueError | KeyError | RuntimeError | NcsError

text \<open>
  How a call or a thread body ends: it returned, an exception left it, or it is still
  blocked waiting (on the queue, or in \<^verbatim>\<open>select\<close>) with nothing left to wake it.
\<close>

datatype completion = Returned | Raised error | Blocked

text \<open>A queue item is a tuple of values; the queue is first in, first out.\<close>

type_synonym item = "pyval list"
type_synonym queue = "item list"

definition q_put :: "queue \<Rightarrow> item \<Rightarrow> queue" where
  "q_put q it = q @ [it]"

datatype level = INFO | ERROR

datatype message =
    SupervisorStarting
  | HelloFromSupervisor
  | ShouldRunButNotRunning
  | RunningButShouldNot
  | GotAnEvent pyval pyval
  | StartingWorker
  | StoppingWorker
  | WorkerNotTerminated
  | HaSupervisorInit
  | HaRunListener

type_synonym log = "(level \<times> message) list"

section \<open>WaitableEvent\<close>

text \<open>
  A \<^verbatim>\<open>WaitableEvent\<close> is a pipe; its state is the number of bytes written and not yet
  read. \<^verbatim>\<open>wait(0)\<close> polls the read end: the pipe is readable iff it holds a byte.
\<close>

record WaitableEvent =
  pipe :: nat

definition we_init :: WaitableEvent where
  "we_init = \<lparr>pipe = 0\<rparr>"

definition isSet :: "WaitableEvent \<Rightarrow> bool" where
  "isSet e = (0 < pipe e)"

definition is_set :: "WaitableEvent \<Rightarrow> bool" where
  "is_set e = (0 < pipe e)"

definition we_clear :: "WaitableEvent \<Rightarrow> WaitableEvent" where
  "we_clear e = (if isSet e then e\<lparr>pipe := pipe e - 1\<rparr> else e)"

definition we_set :: "WaitableEvent \<Rightarrow> WaitableEvent" where
  "we_set e = (if \<not> isSet e then e\<lparr>pipe := pipe e + 1\<rparr> else e)"

datatype we_call = CallSet | CallClear

fun we_apply :: "WaitableEvent \<Rightarrow> we_call \<Rightarrow> WaitableEvent" where
  "we_apply e CallSet = we_set e"
| "we_apply e CallClear = we_clear e"

text \<open>The event after any sequence of \<^verbatim>\<open>set()\<close> and \<^verbatim>\<open>clear()\<close> calls on a fresh one.\<close>

definition we_after :: "we_call list \<Rightarrow> WaitableEvent" where
  "we_after cs = foldl we_apply we_init cs"

section \<open>ConfigSubscriber\<close>

text \<open>
  The iteration state is the dict \<^verbatim>\<open>{'enabled': ...}\<close>, an association list here.
  Storing under a key replaces the entry; reading a missing key raises \<^verbatim>\<open>KeyError\<close>.
\<close>

type_synonym pydict = "(string \<times> pyval) list"

fun dict_set :: "pydict \<Rightarrow> string \<Rightarrow> pyval \<Rightarrow> pydict" where
  "dict_set [] k v = [(k, v)]"
| "dict_set ((k', v') # d) k v = (if k' = k then (k, v) # d else (k', v') # dict_set d k v)"

definition subscript :: "(string \<times> 'v) list \<Rightarrow> string \<Rightarrow> error + 'v" where
  "subscript d k = (case map_of d k of None \<Rightarrow> Inl KeyError | Some v \<Rightarrow> Inr v)"

datatype iter_ret = ITER_STOP | ITER_RECURSE | ITER_CONTINUE

text \<open>One sub-change of a commit, as handed to \<^verbatim>\<open>iterate\<close>.\<close>

record change =
  keypath :: string
  operation :: nat
  oldval :: pyval
  newval :: pyval

definition pre_iterate :: pydict where
  "pre_iterate = [(''enabled'', PyBool False)]"

definition iterate :: "change \<Rightarrow> pydict \<Rightarrow> iter_ret \<times> pydict" where
  "iterate c state = (ITER_RECURSE, dict_set state ''enabled'' (newval c))"

definition should_post_iterate :: "pydict \<Rightarrow> bool" where
  "should_post_iterate state = True"

definition post_iterate :: "queue \<Rightarrow> pydict \<Rightarrow> error + queue" where
  "post_iterate q state =
     (case subscript state ''enabled'' of
        Inl e \<Rightarrow> Inl e
      | Inr v \<Rightarrow> Inr (q_put q [PyStr ''enabled'', PyBool (truthy v)]))"

text \<open>
  Modelled from the spec: the subscription driver (\<^verbatim>\<open>ncs.experimental.Subscriber\<close>) is
  not part of this module. For each commit that touches the registered path it
  "collects during iteration, emits once after": it takes a fresh state from
  \<^verbatim>\<open>pre_iterate\<close>, hands every sub-change to \<^verbatim>\<open>iterate\<close> in order (until one asks to
  stop), and then makes the single final call to \<^verbatim>\<open>post_iterate\<close> if
  \<^verbatim>\<open>should_post_iterate\<close> agrees.
\<close>

fun iterate_all :: "change list \<Rightarrow> pydict \<Rightarrow> pydict" where
  "iterate_all [] state = state"
| "iterate_all (c # cs) state =
     (case iterate c state of
        (ITER_STOP, state') \<Rightarrow> state'
      | (_, state') \<Rightarrow> iterate_all cs state')"

definition commit :: "queue \<Rightarrow> change list \<Rightarrow> error + queue" where
  "commit q cs =
     (let state = iterate_all cs pre_iterate
      in if should_post_iterate state then post_iterate q state else Inr q)"

section \<open>HaEventListener\<close>

text \<open>
  A notification is a dict of dicts; the listener reads \<^verbatim>\<open>notification['hnot']['type']\<close>.
  The two type codes it compares with (\<^verbatim>\<open>events.HA_INFO_IS_MASTER\<close>,
  \<^verbatim>\<open>events.HA_INFO_IS_NONE\<close>) come from \<^verbatim>\<open>_ncs\<close> and are parameters here.
\<close>

type_synonym notification = "(string \<times> (string \<times> nat) list) list"

record events =
  HA_INFO_IS_MASTER :: nat
  HA_INFO_IS_NONE :: nat

record HaEventListener =
  exit_flag :: WaitableEvent
  ha_log :: log
  ha_registered :: bool
  ha_thread :: "completion option"

text \<open>\<^verbatim>\<open>HaEventListener.__init__\<close>; the thread is not started yet.\<close>

definition HaEventListener_init :: HaEventListener where
  "HaEventListener_init =
     \<lparr>exit_flag = we_init, ha_log = [(INFO, HaSupervisorInit)],
      ha_registered = False, ha_thread = None\<rparr>"

text \<open>
  The body of the \<^verbatim>\<open>while True\<close> loop of \<^verbatim>\<open>HaEventListener.run\<close>, over the notifications
  the socket delivers. \<^verbatim>\<open>select\<close> reports the exit flag whenever it is set, and the
  socket whenever a notification is waiting; with neither, the thread stays blocked.
\<close>

fun ha_loop :: "events \<Rightarrow> HaEventListener \<Rightarrow> queue \<Rightarrow> notification list
                \<Rightarrow> HaEventListener \<times> queue" where
  "ha_loop ev l q [] =
     (if is_set (exit_flag l) then (l\<lparr>ha_thread := Some Returned\<rparr>, q)
      else (l\<lparr>ha_thread := Some Blocked\<rparr>, q))"
| "ha_loop ev l q (n # rest) =
     (if is_set (exit_flag l) then (l\<lparr>ha_thread := Some Returned\<rparr>, q)
      else case subscript n ''hnot'' of
        Inl e \<Rightarrow> (l\<lparr>ha_thread := Some (Raised e)\<rparr>, q)
      | Inr hnot \<Rightarrow>
          (case subscript hnot ''type'' of
             Inl e \<Rightarrow> (l\<lparr>ha_thread := Some (Raised e)\<rparr>, q)
           | Inr ha_notif_type \<Rightarrow>
               if ha_notif_type = HA_INFO_IS_MASTER ev
               then ha_loop ev l (q_put q [PyStr ''ha-mode'', PyStr ''master'']) rest
               else if ha_notif_type = HA_INFO_IS_NONE ev
               then ha_loop ev l (q_put q [PyStr ''ha-mode'', PyStr ''none'']) rest
               else ha_loop ev l q rest))"

text \<open>
  \<^verbatim>\<open>start()\<close> on the listener: the thread enters \<^verbatim>\<open>run\<close>, registers itself, connects
  and reaches \<^verbatim>\<open>select\<close>.
\<close>

definition ha_start :: "HaEventListener \<Rightarrow> HaEventListener" where
  "ha_start l =
     l\<lparr>ha_registered := True, ha_log := ha_log l @ [(INFO, HaRunListener)],
       ha_thread := Some Blocked\<rparr>"

text \<open>
  A payload from which \<^verbatim>\<open>notification['hnot']['type']\<close> cannot be read: one of the two
  keys is missing.
\<close>

definition malformed :: "notification \<Rightarrow> bool" where
  "malformed n =
     (case subscript n ''hnot'' of
        Inl e \<Rightarrow> True
      | Inr hnot \<Rightarrow> (case subscript hnot ''type'' of Inl e \<Rightarrow> True | Inr t \<Rightarrow> False))"

definition ha_run :: "events \<Rightarrow> HaEventListener \<Rightarrow> queue \<Rightarrow> notification list
                      \<Rightarrow> HaEventListener \<times> queue" where
  "ha_run ev l q ns = ha_loop ev (ha_start l) q ns"

text \<open>
  \<^verbatim>\<open>HaEventListener.stop\<close>: set the exit flag and join the thread. A thread blocked in
  \<^verbatim>\<open>select\<close> wakes on the flag and returns; one that already ended is joined at once;
  one never started cannot be joined.
\<close>

definition ha_stop :: "HaEventListener \<Rightarrow> completion \<times> HaEventListener" where
  "ha_stop l =
     (let l1 = l\<lparr>exit_flag := we_set (exit_flag l)\<rparr>
      in case ha_thread l1 of
        None \<Rightarrow> (Raised RuntimeError, l1)
      | Some Blocked \<Rightarrow> (Returned, l1\<lparr>ha_thread := Some Returned, ha_registered := False\<rparr>)
      | Some c \<Rightarrow> (Returned, l1\<lparr>ha_registered := False\<rparr>))"

section \<open>The worker process\<close>

text \<open>
  A \<^verbatim>\<open>multiprocessing.Process\<close> handle. What the module needs to know of the process
  behind it: whether it is alive, how often \<^verbatim>\<open>terminate()\<close> was requested, and how many
  milliseconds it takes to exit once termination is requested (\<open>None\<close>: it ignores the
  request). \<^verbatim>\<open>join(timeout)\<close> returns when the process has exited or the timeout has
  passed, whichever is first, and the model returns the time it waited.
\<close>

record worker =
  alive :: bool
  exit_delay :: "nat option"
  terminate_calls :: nat

definition terminate :: "worker \<Rightarrow> worker" where
  "terminate w = w\<lparr>terminate_calls := terminate_calls w + 1\<rparr>"

definition join_timeout :: "nat \<Rightarrow> worker \<Rightarrow> worker \<times> nat" where
  "join_timeout timeout w =
     (if \<not> alive w then (w, 0)
      else case exit_delay w of
        None \<Rightarrow> (w, timeout)
      | Some d \<Rightarrow>
          if 0 < terminate_calls w \<and> d \<le> timeout then (w\<lparr>alive := False\<rparr>, d)
          else (w, timeout))"

text \<open>\<^verbatim>\<open>self.worker.join(timeout=1)\<close>: one second.\<close>

definition grace :: nat where
  "grace = 1000"

section \<open>Process, the supervisor\<close>

text \<open>
  The fields of \<^verbatim>\<open>Process\<close>. \<open>bg_fun\<close> is the caller's function, known here by the
  \<open>exit_delay\<close> of a process running it. \<open>ha_master\<close> is \<open>None\<close> while the attribute has
  never been assigned. \<open>thread\<close> is \<open>None\<close> until the thread is started, then how \<^verbatim>\<open>run\<close>
  stands. \<open>waited\<close> adds up the milliseconds spent in \<^verbatim>\<open>worker.join\<close>.
\<close>

record Process =
  config_path :: "string option"
  bg_fun :: "nat option"
  plog :: log
  q :: queue
  config_subscriber :: bool
  ha_event_listener :: HaEventListener
  worker :: "worker option"
  config_enabled :: pyval
  ha_enabled :: bool
  ha_master :: "bool option"
  registered :: bool
  thread :: "completion option"
  waited :: nat

definition log_info :: "message \<Rightarrow> Process \<Rightarrow> Process" where
  "log_info m s = s\<lparr>plog := plog s @ [(INFO, m)]\<rparr>"

definition log_error :: "message \<Rightarrow> Process \<Rightarrow> Process" where
  "log_error m s = s\<lparr>plog := plog s @ [(ERROR, m)]\<rparr>"

text \<open>
  What the read transaction of \<^verbatim>\<open>__init__\<close> sees: the leaves by path (\<^verbatim>\<open>get_elem\<close> of
  a missing one raises), and the HA subtree, absent or with its mode as a string.
\<close>

record cdb =
  elems :: "(string \<times> pyval) list"
  ha :: "string option"

definition get_elem :: "cdb \<Rightarrow> string \<Rightarrow> error + pyval" where
  "get_elem db p = (case map_of (elems db) p of None \<Rightarrow> Inl NcsError | Some v \<Rightarrow> Inr v)"

text \<open>Reading a variable: the name must be bound in the scope.\<close>

definition name_lookup :: "(string \<times> 'v) list \<Rightarrow> string \<Rightarrow> error + 'v" where
  "name_lookup scope x = (case map_of scope x of None \<Rightarrow> Inl NameError | Some v \<Rightarrow> Inr v)"

text \<open>
  Lines 17 to 40 of \<^verbatim>\<open>Process.__init__\<close>: the queue is created, the subscriber (when
  there is a config path) and the HA listener are started, no worker yet. The three
  condition attributes are not assigned yet; \<open>config_enabled\<close> and \<open>ha_enabled\<close> hold
  placeholders that lines 43 to 60 overwrite before the constructor returns.
\<close>

definition Process_new :: "string option \<Rightarrow> nat option \<Rightarrow> Process" where
  "Process_new cpath bg =
     \<lparr>config_path = cpath, bg_fun = bg, plog = [(INFO, SupervisorStarting)], q = [],
      config_subscriber = (cpath \<noteq> None),
      ha_event_listener = ha_start HaEventListener_init,
      worker = None, config_enabled = PyNone, ha_enabled = False, ha_master = None,
      registered = False, thread = None, waited = 0\<rparr>"

text \<open>
  \<^verbatim>\<open>Process.__init__\<close>. The last statement reads the name \<^verbatim>\<open>mode\<close>; the only string
  bound in the scope at that point is \<^verbatim>\<open>ha_mode\<close>.
\<close>

definition Process_init :: "string option \<Rightarrow> nat option \<Rightarrow> cdb \<Rightarrow> error + Process" where
  "Process_init cpath bg db =
     (let s = Process_new cpath bg
      in case (case cpath of
                 Some p \<Rightarrow> (case get_elem db p of
                              Inl e \<Rightarrow> Inl e
                            | Inr enabled \<Rightarrow> Inr (s\<lparr>config_enabled := PyBool (truthy enabled)\<rparr>))
               | None \<Rightarrow> Inr (s\<lparr>config_enabled := PyBool True\<rparr>)) of
           Inl e \<Rightarrow> Inl e
         | Inr s1 \<Rightarrow>
             (case ha db of
                None \<Rightarrow> Inr (s1\<lparr>ha_enabled := False\<rparr>)
              | Some ha_mode \<Rightarrow>
                  (case name_lookup [(''ha_mode'', ha_mode)] ''mode'' of
                     Inl e \<Rightarrow> Inl e
                   | Inr mode \<Rightarrow>
                       Inr (s1\<lparr>ha_enabled := True, ha_master := Some (mode = ''master'')\<rparr>))))"

text \<open>
  Line 68: \<^verbatim>\<open>self.config_enabled and (not self.ha_enabled or self.ha_master)\<close>, with
  Python's short circuit: \<^verbatim>\<open>self.ha_master\<close> is read only when the first two do not
  decide, and reading an attribute never assigned raises.
\<close>

definition should_run :: "Process \<Rightarrow> error + bool" where
  "should_run s =
     (if \<not> truthy (config_enabled s) then Inr False
      else if \<not> ha_enabled s then Inr True
      else case ha_master s of None \<Rightarrow> Inl AttributeError | Some m \<Rightarrow> Inr m)"

definition worker_start :: "Process \<Rightarrow> Process" where
  "worker_start s =
     (log_info StartingWorker s)
       \<lparr>worker := Some \<lparr>alive = True, exit_delay = bg_fun s, terminate_calls = 0\<rparr>\<rparr>"

definition worker_stop :: "Process \<Rightarrow> completion \<times> Process" where
  "worker_stop s =
     (let s1 = log_info StoppingWorker s
      in case worker s1 of
        None \<Rightarrow> (Raised AttributeError, s1)
      | Some w \<Rightarrow>
          (let (w', t) = join_timeout grace (terminate w);
               s2 = s1\<lparr>worker := Some w', waited := waited s1 + t\<rparr>
           in if alive w' then (Returned, log_error WorkerNotTerminated s2)
              else (Returned, s2)))"

text \<open>\<^verbatim>\<open>self.worker is not None and self.worker.is_alive()\<close>\<close>

definition worker_alive :: "Process \<Rightarrow> bool" where
  "worker_alive s = (case worker s of None \<Rightarrow> False | Some w \<Rightarrow> alive w)"

text \<open>Lines 68 to 77: the first half of the loop body, up to the queue read.\<close>

definition reconcile :: "Process \<Rightarrow> completion \<times> Process" where
  "reconcile s =
     (case should_run s of
        Inl e \<Rightarrow> (Raised e, s)
      | Inr sr \<Rightarrow>
          (case (if sr \<and> \<not> worker_alive s
                 then (case (let s1 = log_info ShouldRunButNotRunning s
                             in if worker s1 \<noteq> None then worker_stop s1 else (Returned, s1)) of
                         (Returned, s2) \<Rightarrow> (Returned, worker_start s2)
                       | r \<Rightarrow> r)
                 else (Returned, s)) of
             (Returned, s3) \<Rightarrow>
               if worker_alive s3 \<and> \<not> sr
               then worker_stop (log_info RunningButShouldNot s3)
               else (Returned, s3)
           | r \<Rightarrow> r))"

text \<open>
  Lines 85 to 90: an item was read. \<^verbatim>\<open>k, v = item\<close> needs a tuple of exactly two.
  \<open>None\<close> means the body ran to its end and the loop goes round again.
\<close>

definition dispatch :: "Process \<Rightarrow> item \<Rightarrow> completion option \<times> Process" where
  "dispatch s it =
     (case it of
        [k, v] \<Rightarrow>
          (let s1 = log_info (GotAnEvent k v) s
           in if k = PyStr ''exit'' then (Some Returned, s1)
              else if k = PyStr ''enabled'' then (None, s1\<lparr>config_enabled := v\<rparr>)
              else (None, s1))
      | _ \<Rightarrow> (Some (Raised ValueError), s))"

text \<open>
  \<^verbatim>\<open>self.q.get(timeout=1)\<close> either times out on an empty queue or fetches the oldest
  item. The loop is run against a schedule saying which of the two each read does.
\<close>

datatype get = Timeout | Fetch

fun run_loop :: "Process \<Rightarrow> get list \<Rightarrow> Process" where
  "run_loop s [] = s\<lparr>thread := Some Blocked\<rparr>"
| "run_loop s (g # gs) =
     (case (case g of
              Timeout \<Rightarrow> (None, s)
            | Fetch \<Rightarrow> (case q s of
                          [] \<Rightarrow> (Some Blocked, s)
                        | it # rest \<Rightarrow> dispatch (s\<lparr>q := rest\<rparr>) it)) of
        (Some c, s1) \<Rightarrow> s1\<lparr>thread := Some c\<rparr>
      | (None, s1) \<Rightarrow>
          (case reconcile s1 of
             (Returned, s2) \<Rightarrow> run_loop s2 gs
           | (c, s2) \<Rightarrow> s2\<lparr>thread := Some c\<rparr>))"

definition run :: "Process \<Rightarrow> get list \<Rightarrow> Process" where
  "run s gs =
     (let s0 = log_info HelloFromSupervisor (s\<lparr>registered := True\<rparr>)
      in case reconcile s0 of
        (Returned, s1) \<Rightarrow> run_loop s1 gs
      | (c, s1) \<Rightarrow> s1\<lparr>thread := Some c\<rparr>)"

text \<open>
  \<^verbatim>\<open>stop\<close> runs in the caller's thread while the supervisor thread is still in its loop.
  The schedule \<open>gs\<close> says what the supervisor's queue reads do from the moment
  \<^verbatim>\<open>worker_stop()\<close> (line 105) has returned: a read may time out (and the loop body on
  lines 68 to 77 runs again) or fetch the oldest item. The exit item is put at the end of
  the queue, so a read that times out before the put and one that times out after it
  leave the same state; the schedule is therefore run after the put.

  \<^verbatim>\<open>self.join()\<close>: the caller waits until the supervisor thread has ended. A thread that has
  ended is joined at once; one never started cannot be joined; one still in its loop when
  the schedule is used up leaves the caller waiting.
\<close>

definition join :: "Process \<Rightarrow> get list \<Rightarrow> completion \<times> Process" where
  "join s gs =
     (case thread s of
        None \<Rightarrow> (Raised RuntimeError, s)
      | Some Blocked \<Rightarrow>
          (let s' = run_loop s gs
           in (if thread s' = Some Blocked then Blocked else Returned, s'))
      | Some c \<Rightarrow> (Returned, s))"

definition stop :: "Process \<Rightarrow> get list \<Rightarrow> completion \<times> Process" where
  "stop s gs =
     (let s1 = (if config_path s \<noteq> None then s\<lparr>config_subscriber := False\<rparr> else s)
      in case ha_stop (ha_event_listener s1) of
        (Returned, l) \<Rightarrow>
          (case worker_stop (s1\<lparr>ha_event_listener := l\<rparr>) of
             (Returned, s3) \<Rightarrow>
               (case join (s3\<lparr>q := q_put (q s3) [PyStr ''exit'']\<rparr>) gs of
                  (Returned, s4) \<Rightarrow> (Returned, s4\<lparr>registered := False\<rparr>)
                | r \<Rightarrow> r)
           | r \<Rightarrow> r)
      | (c, l) \<Rightarrow> (c, s1\<lparr>ha_event_listener := l\<rparr>))"

text \<open>The number of reads in a schedule that fetch an item.\<close>

definition fetches :: "get list \<Rightarrow> nat" where
  "fetches gs = length (filter (\<lambda>g. g = Fetch) gs)"

text \<open>
  A supervisor as it stands after construction with no config path on a node without HA
  and after its thread was started: the first pass of the loop has started the worker,
  and the thread waits on the empty queue.
\<close>

definition supervising :: "nat option \<Rightarrow> Process" where
  "supervising bg =
     (case Process_init None bg \<lparr>elems = [], ha = None\<rparr> of
        Inr s0 \<Rightarrow> run s0 []
      | Inl e \<Rightarrow> Process_new None bg)"

section \<open>The supervisor loop and the queue\<close>

lemma worker_stop_q: "q (snd (worker_stop s)) = q s"
  by (simp add: worker_stop_def log_info_def log_error_def Let_def split: option.splits prod.splits)

lemma worker_stop_not_blocked: "fst (worker_stop s) \<noteq> Blocked"
  by (simp add: worker_stop_def Let_def split: option.splits prod.splits)

lemma worker_start_q: "q (worker_start s) = q s"
  by (simp add: worker_start_def log_info_def)

lemma reconcile_q: "q (snd (reconcile s)) = q s"
  by (auto simp add: reconcile_def worker_stop_q worker_start_q log_info_def Let_def
      split: sum.splits prod.splits completion.splits
      dest: arg_cong [where f = "\<lambda>r. q (snd r)"])

lemma worker_stop_completes: "worker_stop s = (c, s') \<Longrightarrow> c \<noteq> Blocked"
  using worker_stop_not_blocked [of s] by auto

lemma reconcile_not_blocked: "fst (reconcile s) \<noteq> Blocked"
  by (auto simp add: reconcile_def Let_def worker_stop_not_blocked
      split: sum.splits prod.splits completion.splits if_splits
      dest: worker_stop_completes)

lemma dispatch_q: "q (snd (dispatch s it)) = q s"
  by (simp add: dispatch_def log_info_def Let_def split: list.splits)

lemma dispatch_not_blocked: "fst (dispatch s it) \<noteq> Some Blocked"
  by (simp add: dispatch_def Let_def split: list.splits)

lemma dispatch_exit: "dispatch s [PyStr ''exit''] = (Some (Raised ValueError), s)"
  by (simp add: dispatch_def)

text \<open>
  With the exit item last in the queue, a schedule with enough fetches ends the thread,
  whatever timeouts it has in between.
\<close>

lemma run_loop_drains:
  "q s = its @ [[PyStr ''exit'']] \<Longrightarrow> length its < fetches gs \<Longrightarrow>
   thread (run_loop s gs) \<noteq> Some Blocked"
proof (induction gs arbitrary: s its)
  case Nil
  then show ?case by (simp add: fetches_def)
next
  case (Cons g gs)
  show ?case
  proof (cases g)
    case Timeout
    obtain r s2 where rc: "reconcile s = (r, s2)" by (cases "reconcile s")
    have q2: "q s2 = its @ [[PyStr ''exit'']]"
      using reconcile_q [of s] rc Cons.prems(1) by simp
    have f: "length its < fetches gs" using Cons.prems(2) Timeout by (simp add: fetches_def)
    have rnb: "r \<noteq> Blocked" using reconcile_not_blocked [of s] rc by simp
    show ?thesis
    proof (cases r)
      case Returned
      with Timeout rc Cons.IH [OF q2 f] show ?thesis by simp
    next
      case (Raised e)
      with Timeout rc show ?thesis by simp
    next
      case Blocked
      with rnb show ?thesis by simp
    qed
  next
    case Fetch
    show ?thesis
    proof (cases its)
      case Nil
      with Fetch Cons.prems(1) show ?thesis by (simp add: dispatch_exit)
    next
      case (Cons it its')
      obtain c s1 where d: "dispatch (s\<lparr>q := its' @ [[PyStr ''exit'']]\<rparr>) it = (c, s1)"
        by (cases "dispatch (s\<lparr>q := its' @ [[PyStr ''exit'']]\<rparr>) it")
      have q1: "q s1 = its' @ [[PyStr ''exit'']]"
        using dispatch_q [of "s\<lparr>q := its' @ [[PyStr ''exit'']]\<rparr>" it] d by simp
      have nb: "c \<noteq> Some Blocked"
        using dispatch_not_blocked [of "s\<lparr>q := its' @ [[PyStr ''exit'']]\<rparr>" it] d by simp
      have qs: "q s = it # its' @ [[PyStr ''exit'']]" using Cons.prems(1) Cons by simp
      have f: "length its' < fetches gs"
        using Cons.prems(2) Fetch Cons by (simp add: fetches_def)
      show ?thesis
      proof (cases c)
        case (Some c')
        with nb d qs Fetch show ?thesis by simp
      next
        case None
        obtain r s2 where rc: "reconcile s1 = (r, s2)" by (cases "reconcile s1")
        have q2: "q s2 = its' @ [[PyStr ''exit'']]"
          using reconcile_q [of s1] rc q1 by simp
        have rnb: "r \<noteq> Blocked" using reconcile_not_blocked [of s1] rc by simp
        show ?thesis
        proof (cases r)
          case Returned
          with None d rc qs Fetch Cons.IH [OF q2 f] show ?thesis by simp
        next
          case (Raised e)
          with None d rc qs Fetch show ?thesis by simp
        next
          case Blocked
          with rnb show ?thesis by simp
        qed
      qed
    qed
  qed
qed

lemma join_drains:
  "thread s = Some Blocked \<Longrightarrow> q s = its @ [[PyStr ''exit'']] \<Longrightarrow> length its < fetches gs \<Longrightarrow>
   fst (join s gs) = Returned"
  using run_loop_drains [of s its gs] by (simp add: join_def Let_def)

lemma join_ended:
  "thread s = Some c \<Longrightarrow> c \<noteq> Blocked \<Longrightarrow> join s gs = (Returned, s)"
  by (cases c) (simp_all add: join_def)

lemma join_started:
  assumes "thread s \<noteq> None" and "q s = its @ [[PyStr ''exit'']]" and "length its < fetches gs"
  shows "fst (join s gs) = Returned"
proof -
  from assms(1) obtain c where c: "thread s = Some c" by auto
  show ?thesis
  proof (cases "c = Blocked")
    case True
    with c assms(2,3) show ?thesis using join_drains by simp
  next
    case False
    with c show ?thesis using join_ended by simp
  qed
qed

lemma ha_loop_exit:
  "is_set (exit_flag l) \<Longrightarrow> ha_loop ev l qu ns = (l\<lparr>ha_thread := Some Returned\<rparr>, qu)"
  by (cases ns) simp_all

lemma ha_stop_started:
  "ha_thread l \<noteq> None \<Longrightarrow> fst (ha_stop l) = Returned"
  by (auto simp add: ha_stop_def Let_def split: option.splits completion.splits)

lemma worker_stop_some:
  "worker s = Some w \<Longrightarrow> fst (worker_stop s) = Returned"
  by (simp add: worker_stop_def log_info_def Let_def split: prod.splits)

lemma worker_stop_thread: "thread (snd (worker_stop s)) = thread s"
  by (simp add: worker_stop_def log_info_def log_error_def Let_def split: option.splits prod.splits)

lemma stop_returns:
  assumes w: "worker s = Some w" and t: "thread s \<noteq> None"
    and h: "ha_thread (ha_event_listener s) \<noteq> None"
    and f: "length (q s) < fetches gs"
  shows "fst (stop s gs) = Returned"
proof -
  define s1 where "s1 = (if config_path s \<noteq> None then s\<lparr>config_subscriber := False\<rparr> else s)"
  obtain c l where hs: "ha_stop (ha_event_listener s1) = (c, l)"
    by (cases "ha_stop (ha_event_listener s1)")
  have "ha_thread (ha_event_listener s1) \<noteq> None" using h by (simp add: s1_def)
  then have c: "c = Returned" using ha_stop_started [of "ha_event_listener s1"] hs by simp
  define s2 where "s2 = s1\<lparr>ha_event_listener := l\<rparr>"
  obtain r s3 where ws: "worker_stop s2 = (r, s3)" by (cases "worker_stop s2")
  have w2: "worker s2 = Some w" using w by (simp add: s2_def s1_def)
  then have r: "r = Returned" using worker_stop_some [of s2 w] ws by simp
  have t3: "thread s3 \<noteq> None"
    using worker_stop_thread [of s2] ws t by (simp add: s2_def s1_def)
  have q3: "q s3 = q s"
    using worker_stop_q [of s2] ws by (simp add: s2_def s1_def)
  define s4 where "s4 = s3\<lparr>q := q_put (q s3) [PyStr ''exit'']\<rparr>"
  obtain j s5 where js: "join s4 gs = (j, s5)" by (cases "join s4 gs")
  have "fst (join s4 gs) = Returned"
    using join_started [of s4 "q s3" gs] t3 f q3 by (simp add: s4_def q_put_def)
  then have j: "j = Returned" using js by simp
  have "stop s gs =
      (case ha_stop (ha_event_listener s1) of
         (Returned, l) \<Rightarrow>
           (case worker_stop (s1\<lparr>ha_event_listener := l\<rparr>) of
              (Returned, s3) \<Rightarrow>
                (case join (s3\<lparr>q := q_put (q s3) [PyStr ''exit'']\<rparr>) gs of
                   (Returned, s4) \<Rightarrow> (Returned, s4\<lparr>registered := False\<rparr>)
                 | r \<Rightarrow> r)
            | r \<Rightarrow> r)
       | (c, l) \<Rightarrow> (c, s1\<lparr>ha_event_listener := l\<rparr>))"
    by (simp only: stop_def Let_def s1_def)
  also have "\<dots> = (Returned, s5\<lparr>registered := False\<rparr>)"
    using hs c ws r js j by (simp add: s2_def s4_def)
  finally show ?thesis by simp
qed

lemma supervising_eq:
  "supervising bg =
     \<lparr>config_path = None, bg_fun = bg,
      plog = [(INFO, SupervisorStarting), (INFO, HelloFromSupervisor),
              (INFO, ShouldRunButNotRunning), (INFO, StartingWorker)],
      q = [], config_subscriber = False,
      ha_event_listener =
        \<lparr>exit_flag = \<lparr>pipe = 0\<rparr>, ha_log = [(INFO, HaSupervisorInit), (INFO, HaRunListener)],
         ha_registered = True, ha_thread = Some Blocked\<rparr>,
      worker = Some \<lparr>alive = True, exit_delay = bg, terminate_calls = 0\<rparr>,
      config_enabled = PyBool True, ha_enabled = False, ha_master = None,
      registered = True, thread = Some Blocked, waited = 0\<rparr>"
  by (simp add: supervising_def Process_init_def Process_new_def run_def reconcile_def
      should_run_def worker_alive_def log_info_def worker_start_def ha_start_def
      HaEventListener_init_def we_init_def Let_def)

lemma worker_stop_unfold:
  "worker s = Some w \<Longrightarrow>
   worker_stop s =
     (let w' = fst (join_timeout grace (terminate w));
          s2 = s\<lparr>plog := plog s @ [(INFO, StoppingWorker)], worker := Some w',
                 waited := waited s + snd (join_timeout grace (terminate w))\<rparr>
      in if alive w' then (Returned, s2\<lparr>plog := plog s2 @ [(ERROR, WorkerNotTerminated)]\<rparr>)
         else (Returned, s2))"
  by (simp add: worker_stop_def log_info_def log_error_def Let_def split: prod.splits)

lemma join_timeout_bound: "snd (join_timeout t w) \<le> t"
  by (simp add: join_timeout_def split: option.splits)

lemma join_timeout_calls: "terminate_calls (fst (join_timeout t w)) = terminate_calls w"
  by (simp add: join_timeout_def split: option.splits)

lemma join_timeout_stubborn:
  "alive w \<Longrightarrow> (case exit_delay w of None \<Rightarrow> True | Some d \<Rightarrow> t < d) \<Longrightarrow>
   join_timeout t w = (w, t)"
  by (auto simp add: join_timeout_def split: option.splits)

text \<open>
  Without HA the loop body raises nothing, and it leaves HA off.
\<close>

lemma reconcile_no_ha:
  "\<not> ha_enabled s \<Longrightarrow> fst (reconcile s) = Returned \<and> \<not> ha_enabled (snd (reconcile s))"
  by (auto simp add: reconcile_def should_run_def worker_stop_def worker_start_def worker_alive_def
      log_info_def log_error_def Let_def
      split: option.splits prod.splits if_splits)

text \<open>
  With only the exit item in the queue, the first read that fetches it ends the thread
  with \<^verbatim>\<open>ValueError\<close>, however many reads time out before.
\<close>

lemma run_loop_exit_item:
  "\<not> ha_enabled s \<Longrightarrow> q s = [[PyStr ''exit'']] \<Longrightarrow> 0 < fetches gs \<Longrightarrow>
   thread (run_loop s gs) = Some (Raised ValueError)"
proof (induction gs arbitrary: s)
  case Nil
  then show ?case by (simp add: fetches_def)
next
  case (Cons g gs)
  show ?case
  proof (cases g)
    case Timeout
    obtain r s2 where rc: "reconcile s = (r, s2)" by (cases "reconcile s")
    have r: "r = Returned" and h2: "\<not> ha_enabled s2"
      using reconcile_no_ha [OF Cons.prems(1)] rc by simp_all
    have q2: "q s2 = [[PyStr ''exit'']]"
      using reconcile_q [of s] rc Cons.prems(2) by simp
    have f: "0 < fetches gs" using Cons.prems(3) Timeout by (simp add: fetches_def)
    show ?thesis using Timeout rc r Cons.IH [OF h2 q2 f] by simp
  next
    case Fetch
    with Cons.prems(2) show ?thesis by (simp add: dispatch_exit)
  qed
qed

section \<open>Claims about the supervisor\<close>

text \<open>
  C1. For each of the eight combinations of \<open>config_enabled\<close>, \<open>ha_enabled\<close> and
  \<open>ha_master\<close>, the run decision the loop computes on line 68 is
  \<open>config_enabled \<and> (\<not> ha_enabled \<or> ha_master)\<close>, and computing it raises nothing.
\<close>

theorem should_run_table:
  "should_run (s\<lparr>config_enabled := PyBool c, ha_enabled := h, ha_master := Some m\<rparr>)
     = Inr (c \<and> (\<not> h \<or> m))"
  by (simp add: should_run_def)

theorem should_run_table_witness:
  "should_run ((Process_new None None)
       \<lparr>config_enabled := PyBool True, ha_enabled := True, ha_master := Some False\<rparr>)
     = Inr False
   \<and> should_run ((Process_new None None)
       \<lparr>config_enabled := PyBool True, ha_enabled := False, ha_master := Some False\<rparr>)
     = Inr True"
  using should_run_table [where s = "Process_new None None" and c = True and h = True and m = False]
    should_run_table [where s = "Process_new None None" and c = True and h = False and m = False]
  by simp

text \<open>
  C2. The claim is that a dequeued \<^verbatim>\<open>('ha-mode', role)\<close> event sets \<open>ha_enabled\<close> and
  \<open>ha_master\<close>, so that \<^verbatim>\<open>Enabled(true)\<close> followed by \<^verbatim>\<open>HaMode(None)\<close> stops a running
  worker. The loop has no branch for the key \<^verbatim>\<open>'ha-mode'\<close>: on a supervisor built with the
  leaf false and no HA, after the two events the item is logged and dropped, \<open>ha_enabled\<close>
  is still false, \<open>ha_master\<close> is still unassigned and the worker is alive.
\<close>

theorem ha_mode_event_ignored:
  "case Process_init (Some ''/enabled'') (Some 10)
          \<lparr>elems = [(''/enabled'', PyBool False)], ha = None\<rparr> of
     Inl e \<Rightarrow> False
   | Inr s0 \<Rightarrow>
       (let s = run (s0\<lparr>q := [[PyStr ''enabled'', PyBool True],
                               [PyStr ''ha-mode'', PyStr ''none'']]\<rparr>) [Fetch, Fetch]
        in q s = [] \<and> thread s = Some Blocked \<and> config_enabled s = PyBool True
           \<and> ha_enabled s = False \<and> ha_master s = None \<and> worker_alive s)"
  by (simp add: Process_init_def Process_new_def get_elem_def run_def reconcile_def
      should_run_def worker_alive_def log_info_def dispatch_def worker_start_def Let_def)

text \<open>
  C3. The claim is that the loop returns normally on the exit event \<^verbatim>\<open>stop\<close> posts.
  \<^verbatim>\<open>stop\<close> posts the one-element tuple \<^verbatim>\<open>('exit',)\<close>, and the loop unpacks every item
  into two names before it looks at the key: on a supervisor with its worker running,
  under every schedule in which the loop gets to fetch the item, \<^verbatim>\<open>stop\<close> returns, and the
  thread it joined ended with \<^verbatim>\<open>ValueError\<close>.
\<close>

theorem exit_event_raises:
  "case Process_init None (Some 10) \<lparr>elems = [], ha = None\<rparr> of
     Inl e \<Rightarrow> False
   | Inr s0 \<Rightarrow>
       (case stop (run s0 []) gs of
          (c, s) \<Rightarrow> 0 < fetches gs \<longrightarrow> c = Returned \<and> thread s = Some (Raised ValueError))"
proof (cases "0 < fetches gs")
  case True
  have ends: "thread (run_loop s gs) = Some (Raised ValueError)"
    if "\<not> ha_enabled s" and "q s = [[PyStr ''exit'']]" for s
    using that True by (rule run_loop_exit_item)
  show ?thesis
    by (simp add: Process_init_def Process_new_def run_def reconcile_def
        should_run_def worker_alive_def log_info_def log_error_def worker_start_def
        stop_def ha_stop_def ha_start_def HaEventListener_init_def we_set_def isSet_def
        we_init_def worker_stop_def join_def join_timeout_def terminate_def grace_def
        q_put_def Let_def ends)
next
  case False
  then show ?thesis
    by (simp add: Process_init_def Process_new_def split: prod.splits)
qed

theorem exit_event_raises_witness:
  "0 < fetches [Fetch] \<and> 0 < fetches [Timeout, Fetch]
   \<and> (case Process_init None (Some 10) \<lparr>elems = [], ha = None\<rparr> of
         Inl e \<Rightarrow> False
       | Inr s0 \<Rightarrow>
           (case stop (run s0 []) [Fetch] of
              (c, s) \<Rightarrow> c = Returned \<and> thread s = Some (Raised ValueError))
           \<and> (case stop (run s0 []) [Timeout, Fetch] of
                (c, s) \<Rightarrow> c = Returned \<and> thread s = Some (Raised ValueError)))"
  using exit_event_raises [of "[Fetch]"] exit_event_raises [of "[Timeout, Fetch]"]
  by (simp add: fetches_def split: sum.splits prod.splits)

text \<open>
  C5. The claim is that construction completes and sets \<open>ha_master\<close> from the HA mode read
  whenever HA is enabled. With the HA subtree present, the constructor reads the unbound
  name \<^verbatim>\<open>mode\<close> (the mode was bound to \<^verbatim>\<open>ha_mode\<close>) and ends with \<^verbatim>\<open>NameError\<close>.
\<close>

theorem init_with_ha_raises:
  "Process_init None bg \<lparr>elems = es, ha = Some ''master''\<rparr> = Inl NameError"
  by (simp add: Process_init_def name_lookup_def)

text \<open>
  C4. The claim is that \<^verbatim>\<open>stop\<close> always completes without error, also when no worker was
  ever started. \<^verbatim>\<open>stop\<close> calls \<^verbatim>\<open>worker_stop\<close> unguarded (line 105), and \<^verbatim>\<open>worker_stop\<close> calls
  \<^verbatim>\<open>terminate\<close> on the handle whatever it is: on a supervisor built with the leaf false, so
  that no worker was started, \<^verbatim>\<open>stop\<close> ends with \<^verbatim>\<open>AttributeError\<close> under every schedule. The
  exit item is never posted; the supervisor thread stays in its loop and stays registered.
\<close>

theorem stop_without_worker_raises:
  "case Process_init (Some ''/enabled'') (Some 10)
          \<lparr>elems = [(''/enabled'', PyBool False)], ha = None\<rparr> of
     Inl e \<Rightarrow> False
   | Inr s0 \<Rightarrow>
       worker (run s0 []) = None
       \<and> (case stop (run s0 []) gs of
            (c, s) \<Rightarrow>
              c = Raised AttributeError \<and> q s = [] \<and> thread s = Some Blocked \<and> registered s
              \<and> \<not> config_subscriber s \<and> \<not> ha_registered (ha_event_listener s))"
  by (simp add: Process_init_def Process_new_def get_elem_def run_def reconcile_def
      should_run_def worker_alive_def log_info_def
      stop_def ha_stop_def ha_start_def HaEventListener_init_def we_set_def isSet_def we_init_def
      worker_stop_def Let_def)

text \<open>
  What \<^verbatim>\<open>stop\<close> leaves of a worker that was running depends on the schedule. If the loop
  goes straight to the exit item, the worker that exits on request is dead when \<^verbatim>\<open>stop\<close>
  returns. If one read times out first, the loop body finds that the worker should run
  and is not alive, and starts a fresh one, which is alive when \<^verbatim>\<open>stop\<close> returns.
\<close>

lemma stop_restart_on_timeout:
  "(case stop (supervising (Some 10)) [Fetch] of
      (c, s) \<Rightarrow> c = Returned \<and> \<not> worker_alive s)
   \<and> (case stop (supervising (Some 10)) [Timeout, Fetch] of
        (c, s) \<Rightarrow>
          c = Returned
          \<and> worker s = Some \<lparr>alive = True, exit_delay = Some 10, terminate_calls = 0\<rparr>)"
  by (simp add: supervising_eq reconcile_def
      should_run_def worker_alive_def log_info_def log_error_def dispatch_def worker_start_def
      stop_def ha_stop_def we_set_def isSet_def
      worker_stop_def join_def join_timeout_def terminate_def grace_def q_put_def Let_def)

text \<open>
  C9. Stopping a worker requests termination once and waits at most the grace period. If
  the worker is still alive then, \<^verbatim>\<open>worker_stop\<close> logs one error and returns: no second
  request, nothing stronger. So \<^verbatim>\<open>stop\<close>, on a supervisor whose threads were started,
  returns whatever the worker does and whatever the queue holds, under every schedule
  that lets the loop fetch the queue to its end, with any timeouts in between.
\<close>

theorem worker_stop_best_effort:
  assumes "worker s = Some w"
  shows "fst (worker_stop s) = Returned
    \<and> waited (snd (worker_stop s)) \<le> waited s + grace
    \<and> (\<exists>w'. worker (snd (worker_stop s)) = Some w'
             \<and> terminate_calls w' = terminate_calls w + 1)
    \<and> (alive w \<and> (case exit_delay w of None \<Rightarrow> True | Some d \<Rightarrow> grace < d) \<longrightarrow>
          worker_stop s =
            (Returned,
             s\<lparr>plog := plog s @ [(INFO, StoppingWorker), (ERROR, WorkerNotTerminated)],
               worker := Some (w\<lparr>terminate_calls := terminate_calls w + 1\<rparr>),
               waited := waited s + grace\<rparr>))
    \<and> (thread s \<noteq> None \<and> ha_thread (ha_event_listener s) \<noteq> None
          \<and> length (q s) < fetches gs \<longrightarrow>
          fst (stop s gs) = Returned)"
proof -
  have a: "fst (worker_stop s) = Returned" using assms by (rule worker_stop_some)
  have b: "waited (snd (worker_stop s)) \<le> waited s + grace"
    using join_timeout_bound [of grace "terminate w"]
    by (simp add: worker_stop_unfold [OF assms] Let_def)
  have c: "\<exists>w'. worker (snd (worker_stop s)) = Some w'
             \<and> terminate_calls w' = terminate_calls w + 1"
    using join_timeout_calls [of grace "terminate w"]
    by (simp add: worker_stop_unfold [OF assms] Let_def terminate_def)
  have d: "worker_stop s =
            (Returned,
             s\<lparr>plog := plog s @ [(INFO, StoppingWorker), (ERROR, WorkerNotTerminated)],
               worker := Some (w\<lparr>terminate_calls := terminate_calls w + 1\<rparr>),
               waited := waited s + grace\<rparr>)"
    if "alive w" and "case exit_delay w of None \<Rightarrow> True | Some d \<Rightarrow> grace < d"
  proof -
    have "join_timeout grace (terminate w) = (terminate w, grace)"
      using that by (intro join_timeout_stubborn) (simp_all add: terminate_def)
    then show ?thesis
      using that by (simp add: worker_stop_unfold [OF assms] Let_def terminate_def)
  qed
  have e: "fst (stop s gs) = Returned"
    if "thread s \<noteq> None" and "ha_thread (ha_event_listener s) \<noteq> None"
      and "length (q s) < fetches gs"
    using assms that by (rule stop_returns)
  from a b c d e show ?thesis by blast
qed

theorem worker_stop_best_effort_witness:
  "worker (supervising None) = Some \<lparr>alive = True, exit_delay = None, terminate_calls = 0\<rparr>
   \<and> thread (supervising None) \<noteq> None
   \<and> ha_thread (ha_event_listener (supervising None)) \<noteq> None
   \<and> worker_stop (supervising None) =
       (Returned,
        (supervising None)
          \<lparr>plog := plog (supervising None)
                    @ [(INFO, StoppingWorker), (ERROR, WorkerNotTerminated)],
           worker := Some \<lparr>alive = True, exit_delay = None, terminate_calls = 1\<rparr>,
           waited := 1000\<rparr>)
   \<and> length (q (supervising None)) < fetches [Timeout, Fetch]
   \<and> fst (stop (supervising None) [Timeout, Fetch]) = Returned"
  using worker_stop_best_effort
    [of "supervising None" "\<lparr>alive = True, exit_delay = None, terminate_calls = 0\<rparr>"
      "[Timeout, Fetch]"]
  by (simp add: supervising_eq grace_def fetches_def)

section \<open>Claims about the config subscriber\<close>

lemma iterate_all_enabled:
  "iterate_all cs [(''enabled'', v)] = [(''enabled'', if cs = [] then v else newval (last cs))]"
  by (induction cs arbitrary: v) (simp_all add: iterate_def)

text \<open>
  C6. A commit that touches the watched path, with any number of sub-changes, puts exactly
  one item on the queue: \<^verbatim>\<open>('enabled', v)\<close> with \<open>v\<close> the truth value of the last value
  recorded during the iteration.
\<close>

theorem commit_emits_once:
  "cs \<noteq> [] \<Longrightarrow>
   commit qu cs = Inr (qu @ [[PyStr ''enabled'', PyBool (truthy (newval (last cs)))]])"
  by (simp add: commit_def pre_iterate_def iterate_all_enabled should_post_iterate_def
      post_iterate_def subscript_def q_put_def)

theorem commit_emits_once_witness:
  "[\<lparr>keypath = ''/enabled'', operation = 1, oldval = PyNone, newval = PyObj True\<rparr>,
    \<lparr>keypath = ''/enabled'', operation = 2, oldval = PyObj True, newval = PyObj False\<rparr>,
    \<lparr>keypath = ''/enabled'', operation = 2, oldval = PyObj False, newval = PyObj True\<rparr>] \<noteq> []
   \<and> commit []
       [\<lparr>keypath = ''/enabled'', operation = 1, oldval = PyNone, newval = PyObj True\<rparr>,
        \<lparr>keypath = ''/enabled'', operation = 2, oldval = PyObj True, newval = PyObj False\<rparr>,
        \<lparr>keypath = ''/enabled'', operation = 2, oldval = PyObj False, newval = PyObj True\<rparr>]
     = Inr [[PyStr ''enabled'', PyBool True]]"
  using commit_emits_once [of
      "[\<lparr>keypath = ''/enabled'', operation = 1, oldval = PyNone, newval = PyObj True\<rparr>,
        \<lparr>keypath = ''/enabled'', operation = 2, oldval = PyObj True, newval = PyObj False\<rparr>,
        \<lparr>keypath = ''/enabled'', operation = 2, oldval = PyObj False, newval = PyObj True\<rparr>]"
      "[]"]
  by simp

text \<open>
  C10. A commit during which \<^verbatim>\<open>iterate\<close> is never called still puts exactly one item on
  the queue, with the value \<^verbatim>\<open>pre_iterate\<close> set: \<^verbatim>\<open>('enabled', False)\<close>.
\<close>

theorem commit_without_iterate:
  "commit qu [] = Inr (qu @ [[PyStr ''enabled'', PyBool False]])"
  by (simp add: commit_def pre_iterate_def should_post_iterate_def
      post_iterate_def subscript_def q_put_def)

section \<open>Claims about the HA listener\<close>

text \<open>
  C7. The claim is that a payload from which the type cannot be read is survived: logged,
  no event, loop continues. The listener does not catch the \<^verbatim>\<open>KeyError\<close> (the comment on
  lines 189 and 190 says so): with a payload that lacks \<^verbatim>\<open>'type'\<close> followed by a master
  notification, the thread ends with \<^verbatim>\<open>KeyError\<close>, nothing is logged, and the master event
  is never put on the queue.
\<close>

theorem malformed_notification_counterexample:
  "case ha_run \<lparr>HA_INFO_IS_MASTER = 5, HA_INFO_IS_NONE = 6\<rparr> HaEventListener_init []
          [[(''hnot'', [(''kind'', 5)])], [(''hnot'', [(''type'', 5)])]] of
     (l, qu) \<Rightarrow>
       ha_thread l = Some (Raised KeyError) \<and> qu = []
       \<and> ha_log l = [(INFO, HaSupervisorInit), (INFO, HaRunListener)]"
  by (simp add: ha_run_def ha_start_def HaEventListener_init_def we_init_def is_set_def
      subscript_def)

text \<open>
  C7, as the code has it. On a malformed payload the listener puts no event on the queue
  and logs nothing; the \<^verbatim>\<open>KeyError\<close> leaves \<^verbatim>\<open>run\<close>, so the thread ends there and the
  notifications after it are not read.
\<close>

theorem malformed_ends_listener:
  "malformed n \<Longrightarrow> \<not> is_set (exit_flag l) \<Longrightarrow>
   ha_loop ev l qu (n # rest) = (l\<lparr>ha_thread := Some (Raised KeyError)\<rparr>, qu)"
  by (auto simp add: malformed_def subscript_def split: option.splits sum.splits)

theorem malformed_ends_listener_witness:
  "malformed [] \<and> \<not> is_set (exit_flag (ha_start HaEventListener_init))
   \<and> ha_loop \<lparr>HA_INFO_IS_MASTER = 5, HA_INFO_IS_NONE = 6\<rparr> (ha_start HaEventListener_init) []
        [[], [(''hnot'', [(''type'', 5)])]]
      = ((ha_start HaEventListener_init)\<lparr>ha_thread := Some (Raised KeyError)\<rparr>, [])"
  using malformed_ends_listener [of "[]" "ha_start HaEventListener_init"
      "\<lparr>HA_INFO_IS_MASTER = 5, HA_INFO_IS_NONE = 6\<rparr>" "[]" "[[(''hnot'', [(''type'', 5)])]]"]
  by (simp add: malformed_def subscript_def ha_start_def HaEventListener_init_def
      we_init_def is_set_def)

section \<open>Claims about WaitableEvent\<close>

lemma we_apply_bound: "pipe e \<le> 1 \<Longrightarrow> pipe (we_apply e c) \<le> 1"
  by (cases c) (auto simp add: we_set_def we_clear_def isSet_def)

lemma foldl_we_apply_bound: "pipe e \<le> 1 \<Longrightarrow> pipe (foldl we_apply e cs) \<le> 1"
proof (induction cs arbitrary: e)
  case Nil
  then show ?case by simp
next
  case (Cons c cs)
  from Cons.prems have "pipe (we_apply e c) \<le> 1" by (rule we_apply_bound)
  then have "pipe (foldl we_apply (we_apply e c) cs) \<le> 1" by (rule Cons.IH)
  then show ?case by simp
qed

lemma we_after_bound: "pipe (we_after cs) \<le> 1"
  unfolding we_after_def by (rule foldl_we_apply_bound) (simp add: we_init_def)

text \<open>
  C8. On an event reached by any sequence of \<^verbatim>\<open>set()\<close> and \<^verbatim>\<open>clear()\<close> calls, a second
  \<^verbatim>\<open>set()\<close> changes nothing and leaves one byte in the pipe, so that one \<^verbatim>\<open>clear()\<close>
  makes the event clear; a second \<^verbatim>\<open>clear()\<close> changes nothing; and \<^verbatim>\<open>clear()\<close> on a clear
  event leaves it as it is. Neither call has a failing branch.
\<close>

theorem waitable_idempotent:
  "we_set (we_set (we_after cs)) = we_set (we_after cs)
   \<and> is_set (we_set (we_set (we_after cs)))
   \<and> pipe (we_set (we_set (we_after cs))) = 1
   \<and> \<not> is_set (we_clear (we_set (we_set (we_after cs))))
   \<and> we_clear (we_clear (we_after cs)) = we_clear (we_after cs)
   \<and> (\<not> is_set (we_after cs) \<longrightarrow> we_clear (we_after cs) = we_after cs)"
  using we_after_bound [of cs]
  by (auto simp add: we_set_def we_clear_def isSet_def is_set_def)

theorem waitable_idempotent_witness:
  "\<not> is_set (we_after [CallSet, CallSet, CallClear])
   \<and> we_clear (we_after [CallSet, CallSet, CallClear]) = we_after [CallSet, CallSet, CallClear]
   \<and> pipe (we_set (we_set (we_after [CallSet, CallSet, CallClear]))) = 1"
  using waitable_idempotent [of "[CallSet, CallSet, CallClear]"]
  by (simp add: we_after_def we_init_def we_set_def we_clear_def isSet_def is_set_def)

end
